theory Spec2Isabelle
  imports Main
begin

section \<open>wrap\_functions.py: the regular expressions of Python's re module\<close>

text \<open>
  The script rewrites a text with two calls of \<^verbatim>\<open>re.sub(pattern, repl, content, flags=re.DOTALL)\<close>.
  The first pattern is built from the function name given on the command line, so the
  pattern is a string that is parsed at run time; the model parses pattern strings too.

  Characters are the code points below 256. Errors of the script are values of
  \<open>error\<close>: \<open>PatternError\<close> is Python's \<^verbatim>\<open>re.error\<close>, \<open>IndexError\<close>,
  \<open>FileNotFoundError\<close>, \<open>PermissionError\<close> and \<open>UnicodeDecodeError\<close> are the
  exceptions of those names.
  \<open>Unmodelled\<close> is not a behaviour of the script: the model returns it for a pattern
  that uses regular-expression syntax outside the fragment formalised here, and no
  statement below says anything about such a pattern.
\<close>

datatype error =
    PatternError
  | IndexError
  | FileNotFoundError
  | PermissionError
  | UnicodeDecodeError
  | Unmodelled

subsection \<open>Abstract syntax and backtracking matcher\<close>

datatype citem = CChar char | CSpace

datatype rx =
    Lit char
  | Dot
  | Cls bool "citem list"
  | Eps
  | Cat rx rx
  | Alt rx rx
  | Star rx
  | Grp nat rx

type_synonym caps = "(nat \<times> string) list"

definition bs :: char where
  "bs = CHR 0x5C"

definition is_space :: "char \<Rightarrow> bool" where
  \<comment> \<open>\<^verbatim>\<open>\s\<close> of a str pattern: the characters with \<^verbatim>\<open>str.isspace\<close>, below 256.\<close>
  "is_space ch = (ch \<in> set [CHR 0x09, CHR 0x0A, CHR 0x0B, CHR 0x0C, CHR 0x0D,
                             CHR 0x1C, CHR 0x1D, CHR 0x1E, CHR 0x1F, CHR 0x20,
                             CHR 0x85, CHR 0xA0])"

fun citem_has :: "citem \<Rightarrow> char \<Rightarrow> bool" where
  "citem_has (CChar a) ch = (ch = a)"
| "citem_has CSpace ch = is_space ch"

definition cls_has :: "bool \<Rightarrow> citem list \<Rightarrow> char \<Rightarrow> bool" where
  "cls_has neg items ch = (if neg then \<not> list_ex (\<lambda>i. citem_has i ch) items
                           else list_ex (\<lambda>i. citem_has i ch) items)"

text \<open>
  \<open>ms r s c\<close> lists, in the order in which the backtracking engine tries them, the
  ways \<open>r\<close> matches a prefix of \<open>s\<close>: each is the text left after the match and the
  groups captured (number and text, the latest capture first). A repetition is greedy,
  and an iteration that consumes nothing ends the loop (the parser applies a repetition
  to no such body). \<open>Dot\<close> matches every character, the line feed too: both calls pass
  \<^verbatim>\<open>re.DOTALL\<close>.
\<close>

function ms :: "rx \<Rightarrow> string \<Rightarrow> caps \<Rightarrow> (string \<times> caps) list" where
  "ms (Lit a) s c = (case s of [] \<Rightarrow> [] | x # xs \<Rightarrow> if x = a then [(xs, c)] else [])"
| "ms Dot s c = (case s of [] \<Rightarrow> [] | x # xs \<Rightarrow> [(xs, c)])"
| "ms (Cls neg items) s c =
     (case s of [] \<Rightarrow> [] | x # xs \<Rightarrow> if cls_has neg items x then [(xs, c)] else [])"
| "ms Eps s c = [(s, c)]"
| "ms (Cat a b) s c = concat (map (\<lambda>(s', c'). ms b s' c') (ms a s c))"
| "ms (Alt a b) s c = ms a s c @ ms b s c"
| "ms (Star a) s c =
     concat (map (\<lambda>(s', c'). if length s' < length s then ms (Star a) s' c' else [])
                 (ms a s c))
     @ [(s, c)]"
| "ms (Grp n a) s c =
     map (\<lambda>(s', c'). (s', (n, take (length s - length s') s) # c')) (ms a s c)"
  by pat_completeness auto
termination
  by (relation "inv_image (less_than <*lex*> less_than) (\<lambda>(r, s, c). (size r, length s))")
     auto

declare ms.simps(7) [simp del]

subsection \<open>The pattern parser\<close>

text \<open>
  The parser reads the pattern one character at a time. Its state holds what the next
  character means (\<open>pmode\<close>), what stands before the cursor in the current sequence
  (\<open>rstat\<close>, which decides what a repetition operator applies to), the open groups with
  the alternatives and the items read so far in each (innermost first, both reversed),
  and the number of groups opened.
\<close>

datatype pmode =
    Normal
  | Escaped
  | ClassOpen
  | ClassFirst bool
  | ClassBody bool "citem list"
  | ClassEscaped bool "citem list"

datatype rstat = AtStart | AfterOpen | Atom | Repeated

datatype frame = Frame nat "rx list" "rx list"

datatype pstate = PState pmode rstat "frame list" nat

fun nullable :: "rx \<Rightarrow> bool" where
  "nullable (Lit a) = False"
| "nullable Dot = False"
| "nullable (Cls neg items) = False"
| "nullable Eps = True"
| "nullable (Cat a b) = (nullable a \<and> nullable b)"
| "nullable (Alt a b) = (nullable a \<or> nullable b)"
| "nullable (Star a) = True"
| "nullable (Grp n a) = nullable a"

definition seq_of :: "rx list \<Rightarrow> rx" where
  \<comment> \<open>the items of a sequence, given reversed\<close>
  "seq_of items = foldr Cat (rev items) Eps"

fun alt_of :: "rx list \<Rightarrow> rx" where
  "alt_of [] = Eps"
| "alt_of [a] = a"
| "alt_of (a # b # bs') = Alt a (alt_of (b # bs'))"

definition branches :: "rx list \<Rightarrow> rx list \<Rightarrow> rx" where
  \<comment> \<open>a group's content: the finished alternatives (reversed) and the current sequence\<close>
  "branches alts items = alt_of (rev (seq_of items # alts))"

definition is_alnum :: "char \<Rightarrow> bool" where
  \<comment> \<open>an ASCII letter or digit\<close>
  "is_alnum ch = (let n = (of_char ch :: nat) in
                    (48 \<le> n \<and> n \<le> 57) \<or> (65 \<le> n \<and> n \<le> 90) \<or> (97 \<le> n \<and> n \<le> 122))"

definition push_item :: "rx \<Rightarrow> frame list \<Rightarrow> nat \<Rightarrow> error + pstate" where
  "push_item item fs g =
     (case fs of
        [] \<Rightarrow> Inl PatternError
      | Frame k alts items # rest \<Rightarrow>
          Inr (PState Normal Atom (Frame k alts (item # items) # rest) g))"

definition repeat_last :: "(rx \<Rightarrow> rx) \<Rightarrow> frame list \<Rightarrow> nat \<Rightarrow> error + pstate" where
  \<comment> \<open>a repetition operator applies to the last item of the current sequence\<close>
  "repeat_last f fs g =
     (case fs of
        Frame k alts (item # items) # rest \<Rightarrow>
          if nullable item then Inl Unmodelled
          else Inr (PState Normal Repeated (Frame k alts (f item # items) # rest) g)
      | _ \<Rightarrow> Inl PatternError)"

definition escape_item :: "char \<Rightarrow> error + citem" where
  \<comment> \<open>the character after a backslash: \<^verbatim>\<open>\s\<close>, or a character that is not a letter or
      digit and stands for itself\<close>
  "escape_item ch =
     (if ch = CHR ''s'' then Inr CSpace
      else if is_alnum ch then Inl Unmodelled
      else Inr (CChar ch))"

fun item_rx :: "citem \<Rightarrow> rx" where
  "item_rx (CChar a) = Lit a"
| "item_rx CSpace = Cls False [CSpace]"

fun class_step :: "bool \<Rightarrow> citem list \<Rightarrow> rstat \<Rightarrow> frame list \<Rightarrow> nat \<Rightarrow> char \<Rightarrow> error + pstate" where
  "class_step neg items st fs g ch =
     (if ch = CHR '']'' then push_item (Cls neg (rev items)) fs g
      else if ch = bs then Inr (PState (ClassEscaped neg items) st fs g)
      else if ch = CHR ''-'' then Inl Unmodelled
      else Inr (PState (ClassBody neg (CChar ch # items)) st fs g))"

fun class_first :: "bool \<Rightarrow> rstat \<Rightarrow> frame list \<Rightarrow> nat \<Rightarrow> char \<Rightarrow> error + pstate" where
  "class_first neg st fs g ch =
     (if ch = CHR '']'' then Inr (PState (ClassBody neg [CChar ch]) st fs g)
      else class_step neg [] st fs g ch)"

fun normal_step :: "rstat \<Rightarrow> frame list \<Rightarrow> nat \<Rightarrow> char \<Rightarrow> error + pstate" where
  "normal_step st fs g ch =
     (if ch = bs then Inr (PState Escaped st fs g)
      else if ch = CHR ''['' then Inr (PState ClassOpen st fs g)
      else if ch = CHR ''('' then Inr (PState Normal AfterOpen (Frame (Suc g) [] [] # fs) (Suc g))
      else if ch = CHR '')'' then
        (case fs of
           Frame k alts items # Frame k' alts' items' # rest \<Rightarrow>
             Inr (PState Normal Atom
                    (Frame k' alts' (Grp k (branches alts items) # items') # rest) g)
         | _ \<Rightarrow> Inl PatternError)
      else if ch = CHR ''|'' then
        (case fs of
           Frame k alts items # rest \<Rightarrow>
             Inr (PState Normal AtStart (Frame k (seq_of items # alts) [] # rest) g)
         | [] \<Rightarrow> Inl PatternError)
      else if ch = CHR ''*'' then
        (case st of
           Atom \<Rightarrow> repeat_last Star fs g
         | _ \<Rightarrow> Inl PatternError)
      else if ch = CHR ''+'' then
        (case st of
           Atom \<Rightarrow> repeat_last (\<lambda>r. Cat r (Star r)) fs g
         | Repeated \<Rightarrow> Inl Unmodelled
         | _ \<Rightarrow> Inl PatternError)
      else if ch = CHR ''?'' then
        (case st of
           Atom \<Rightarrow> repeat_last (\<lambda>r. Alt r Eps) fs g
         | AtStart \<Rightarrow> Inl PatternError
         | _ \<Rightarrow> Inl Unmodelled)
      else if ch = CHR ''.'' then push_item Dot fs g
      else if ch = CHR ''{'' \<or> ch = CHR ''^'' \<or> ch = CHR ''$'' then Inl Unmodelled
      else push_item (Lit ch) fs g)"

fun pstep :: "pstate \<Rightarrow> char \<Rightarrow> error + pstate" where
  "pstep (PState Normal st fs g) ch = normal_step st fs g ch"
| "pstep (PState Escaped st fs g) ch =
     (case escape_item ch of Inl e \<Rightarrow> Inl e | Inr i \<Rightarrow> push_item (item_rx i) fs g)"
| "pstep (PState ClassOpen st fs g) ch =
     (if ch = CHR ''^'' then Inr (PState (ClassFirst True) st fs g)
      else class_first False st fs g ch)"
| "pstep (PState (ClassFirst neg) st fs g) ch = class_first neg st fs g ch"
| "pstep (PState (ClassBody neg items) st fs g) ch = class_step neg items st fs g ch"
| "pstep (PState (ClassEscaped neg items) st fs g) ch =
     (case escape_item ch of
        Inl e \<Rightarrow> Inl e
      | Inr i \<Rightarrow> Inr (PState (ClassBody neg (i # items)) st fs g))"

fun pfold :: "pstate \<Rightarrow> string \<Rightarrow> error + pstate" where
  "pfold p [] = Inr p"
| "pfold p (ch # rest) = (case pstep p ch of Inl e \<Rightarrow> Inl e | Inr p' \<Rightarrow> pfold p' rest)"

fun pfinish :: "pstate \<Rightarrow> error + (rx \<times> nat)" where
  "pfinish (PState Normal st [Frame k alts items] g) = Inr (branches alts items, g)"
| "pfinish (PState m st fs g) = Inl PatternError"

definition re_compile :: "string \<Rightarrow> error + (rx \<times> nat)" where
  \<comment> \<open>the syntax tree of a pattern and the number of its groups\<close>
  "re_compile p =
     (case pfold (PState Normal AtStart [Frame 0 [] []] 0) p of
        Inl e \<Rightarrow> Inl e
      | Inr st \<Rightarrow> pfinish st)"

subsection \<open>Substitution\<close>

text \<open>
  A replacement template is literal text with group references. The templates of the
  script hold no escape but \<^verbatim>\<open>\1\<close>; a backslash before a digit from 1 to 9 that no
  further digit follows refers to that group, which must exist in the pattern. A group
  that took no part in the match expands to the empty string.
\<close>

datatype titem = TLit char | TGroup nat

definition digit_val :: "char \<Rightarrow> nat option" where
  "digit_val ch = (let n = (of_char ch :: nat) in
                     if 48 \<le> n \<and> n \<le> 57 then Some (n - 48) else None)"

fun parse_template :: "nat \<Rightarrow> string \<Rightarrow> error + titem list" where
  "parse_template g [] = Inr []"
| "parse_template g [x] = (if x = bs then Inl PatternError else Inr [TLit x])"
| "parse_template g (x # y # zs) =
     (if x \<noteq> bs then
        (case parse_template g (y # zs) of Inl e \<Rightarrow> Inl e | Inr t \<Rightarrow> Inr (TLit x # t))
      else
        (case digit_val y of
           None \<Rightarrow> Inl Unmodelled
         | Some d \<Rightarrow>
             if d = 0 then Inl Unmodelled
             else if (case zs of [] \<Rightarrow> False | z # _ \<Rightarrow> digit_val z \<noteq> None) then Inl Unmodelled
             else if g < d then Inl PatternError
             else (case parse_template g zs of Inl e \<Rightarrow> Inl e | Inr t \<Rightarrow> Inr (TGroup d # t))))"

definition group_text :: "caps \<Rightarrow> nat \<Rightarrow> string" where
  \<comment> \<open>the text of a group in a replacement; empty for a group that took no part\<close>
  "group_text c n = (case map_of c n of None \<Rightarrow> [] | Some t \<Rightarrow> t)"

fun expand_item :: "caps \<Rightarrow> titem \<Rightarrow> string" where
  "expand_item c (TLit ch) = [ch]"
| "expand_item c (TGroup n) = group_text c n"

definition expand :: "titem list \<Rightarrow> caps \<Rightarrow> string" where
  "expand t c = concat (map (expand_item c) t)"

definition first_match :: "rx \<Rightarrow> bool \<Rightarrow> string \<Rightarrow> (string \<times> caps) option" where
  \<comment> \<open>the match the engine finds at the start of \<open>s\<close>; with \<open>adv\<close> (the engine's
      \<^verbatim>\<open>must_advance\<close>) an empty match is refused and the engine backtracks\<close>
  "first_match r adv s =
     List.find (\<lambda>(s', c). if adv then length s' < length s else True) (ms r s [])"

text \<open>
  \<^verbatim>\<open>re.sub\<close> with no count: the text before a match is copied, the match is replaced by
  the expanded template, and the search resumes where the match ended, until no match
  is left. After an empty match the next match at the same place must not be empty.
\<close>

function sub_scan :: "rx \<Rightarrow> titem list \<Rightarrow> bool \<Rightarrow> string \<Rightarrow> string" where
  "sub_scan r t adv s =
     (case first_match r adv s of
        None \<Rightarrow> (case s of [] \<Rightarrow> [] | x # xs \<Rightarrow> x # sub_scan r t False xs)
      | Some (s', c) \<Rightarrow>
          expand t c @
          (if length s' < length s then sub_scan r t False s' else sub_scan r t True s))"
  by pat_completeness auto
termination
proof (relation "inv_image (less_than <*lex*> less_than)
                   (\<lambda>(r, t, adv, s). (length s, if adv then 0 else (1::nat)))")
  show "wf (inv_image (less_than <*lex*> less_than)
              (\<lambda>(r, t, adv, s). (length s, if adv then 0 else (1::nat))))"
    by (intro wf_inv_image wf_lex_prod wf_less_than)
next
  fix r :: rx and t :: "titem list" and adv :: bool and s :: string and x :: char and xs :: string
  assume "s = x # xs"
  then show "((r, t, False, xs), (r, t, adv, s)) \<in>
      inv_image (less_than <*lex*> less_than)
        (\<lambda>(r, t, adv, s). (length s, if adv then 0 else (1::nat)))"
    by simp
next
  fix r :: rx and t :: "titem list" and adv :: bool and s :: string
    and m :: "string \<times> caps" and s' :: string and c :: caps
  assume "length s' < length s"
  then show "((r, t, False, s'), (r, t, adv, s)) \<in>
      inv_image (less_than <*lex*> less_than)
        (\<lambda>(r, t, adv, s). (length s, if adv then 0 else (1::nat)))"
    by simp
next
  fix r :: rx and t :: "titem list" and adv :: bool and s :: string
    and m :: "string \<times> caps" and s' :: string and c :: caps
  assume "first_match r adv s = Some m" and "(s', c) = m" and "\<not> length s' < length s"
  then have "\<not> adv"
    by (cases adv) (auto simp: first_match_def find_Some_iff)
  then show "((r, t, True, s), (r, t, adv, s)) \<in>
      inv_image (less_than <*lex*> less_than)
        (\<lambda>(r, t, adv, s). (length s, if adv then 0 else (1::nat)))"
    by simp
qed

declare sub_scan.simps [simp del]

definition re_sub :: "string \<Rightarrow> string \<Rightarrow> string \<Rightarrow> error + string" where
  \<comment> \<open>\<^verbatim>\<open>re.sub(pattern, repl, s, flags=re.DOTALL)\<close>: the pattern and the template are
      compiled first, so their errors are raised whether or not the pattern matches\<close>
  "re_sub p repl s =
     (case re_compile p of
        Inl e \<Rightarrow> Inl e
      | Inr (r, g) \<Rightarrow>
          (case parse_template g repl of
             Inl e \<Rightarrow> Inl e
           | Inr t \<Rightarrow> Inr (sub_scan r t False s)))"

section \<open>The script\<close>

subsection \<open>wrap\_function\<close>

definition pattern :: "string \<Rightarrow> string" where
  \<comment> \<open>\<^verbatim>\<open>rf'(export async function {function_name}\([^)]*\)[^{{]*\{{\s*)try \{{'\<close>\<close>
  "pattern function_name =
     ''(export async function '' @ function_name @ [bs] @ ''([^)]*'' @ [bs] @ '')[^{]*''
       @ [bs] @ ''{'' @ [bs] @ ''s*)try '' @ [bs] @ ''{''"

definition replacement :: string where
  \<comment> \<open>\<^verbatim>\<open>r'\1return withServerActionErrorHandler(async () => {'\<close>\<close>
  "replacement = [bs] @ ''1return withServerActionErrorHandler(async () => {''"

definition catch_pattern :: string where
  \<comment> \<open>\<^verbatim>\<open>r'(\s*)\} catch \(error\) \{[^}]*console\.error\([^)]*\);[^}]*return \{[^}]*success: false,[^}]*error: [^}]*\};(\s*)\}'\<close>\<close>
  "catch_pattern =
     ''('' @ [bs] @ ''s*)'' @ [bs] @ ''} catch '' @ [bs] @ ''(error'' @ [bs] @ '') ''
       @ [bs] @ ''{[^}]*console'' @ [bs] @ ''.error'' @ [bs] @ ''([^)]*'' @ [bs] @ '');[^}]*return ''
       @ [bs] @ ''{[^}]*success: false,[^}]*error: [^}]*'' @ [bs] @ ''};('' @ [bs] @ ''s*)''
       @ [bs] @ ''}''"

definition catch_replacement :: "string \<Rightarrow> string" where
  \<comment> \<open>\<^verbatim>\<open>rf'\1}}, ''{function_name}'');\2}}'\<close> is three adjacent string literals, joined by
      the compiler: the raw f-string \<^verbatim>\<open>rf'\1}}, '\<close>, which holds no replacement field,
      the plain string \<^verbatim>\<open>'{function_name}'\<close>, whose braces are text, and the plain
      string \<^verbatim>\<open>');\2}}'\<close>, where \<^verbatim>\<open>\2\<close> is the octal escape of the character 2.\<close>
  "catch_replacement function_name =
     ([bs] @ ''1}, '') @ ''{function_name}'' @ ('');'' @ [CHR 0x02] @ ''}}'')"

definition wrap_function :: "string \<Rightarrow> string \<Rightarrow> error + string" where
  "wrap_function content function_name =
     (case re_sub (pattern function_name) replacement content of
        Inl e \<Rightarrow> Inl e
      | Inr content' \<Rightarrow> re_sub catch_pattern (catch_replacement function_name) content')"

subsection \<open>Files and the command line\<close>

text \<open>
  The script opens the file in text mode, with the default \<^verbatim>\<open>newline=None\<close>: reading
  turns every \<^verbatim>\<open>\r\n\<close> and every other \<^verbatim>\<open>\r\<close> into \<^verbatim>\<open>\n\<close>, and writing turns
  every \<^verbatim>\<open>\n\<close> into the line separator of the platform (\<^verbatim>\<open>os.linesep\<close>). No
  encoding is given, so the bytes of the file are decoded and encoded with the encoding
  of the platform.

  A world holds the bytes of each file, which files may be read and written, the line
  separator and the codec. \<open>decode_text\<close> gives no text for bytes that are not text in
  the encoding: reading them raises \<^verbatim>\<open>UnicodeDecodeError\<close>. \<open>encode_text\<close> is total:
  the script writes only characters that it read and the ASCII characters of its
  templates and of the line separator, and the codec that decoded the file encodes
  those.
\<close>

record world =
  files :: "string \<rightharpoonup> string"
  readable :: "string \<Rightarrow> bool"
  writable :: "string \<Rightarrow> bool"
  linesep :: string
  decode_text :: "string \<Rightarrow> string option"
  encode_text :: "string \<Rightarrow> string"

definition CR :: char where
  "CR = CHR 0x0D"

definition LF :: char where
  "LF = CHR 0x0A"

fun universal_newlines :: "string \<Rightarrow> string" where
  "universal_newlines [] = []"
| "universal_newlines [x] = (if x = CR then [LF] else [x])"
| "universal_newlines (x # y # zs) =
     (if x = CR then
        (if y = LF then LF # universal_newlines zs else LF # universal_newlines (y # zs))
      else x # universal_newlines (y # zs))"

definition write_newlines :: "string \<Rightarrow> string \<Rightarrow> string" where
  "write_newlines sep text = concat (map (\<lambda>ch. if ch = LF then sep else [ch]) text)"

definition read_file :: "world \<Rightarrow> string \<Rightarrow> error + string" where
  \<comment> \<open>\<^verbatim>\<open>with open(filename, 'r') as f: content = f.read()\<close>\<close>
  "read_file w filename =
     (case files w filename of
        None \<Rightarrow> Inl FileNotFoundError
      | Some stored \<Rightarrow>
          if readable w filename then
            (case decode_text w stored of
               None \<Rightarrow> Inl UnicodeDecodeError
             | Some text \<Rightarrow> Inr (universal_newlines text))
          else Inl PermissionError)"

definition write_file :: "world \<Rightarrow> string \<Rightarrow> string \<Rightarrow> error + world" where
  \<comment> \<open>\<^verbatim>\<open>with open(filename, 'w') as f: f.write(content)\<close>, for a file that exists\<close>
  "write_file w filename content =
     (if writable w filename
      then Inr (w\<lparr>files := (files w)(filename \<mapsto>
                  encode_text w (write_newlines (linesep w) content))\<rparr>)
      else Inl PermissionError)"

fun str_nat :: "nat \<Rightarrow> string" where
  \<comment> \<open>\<^verbatim>\<open>str\<close> of a natural number: its decimal digits\<close>
  "str_nat n =
     (if n < 10 then [char_of (48 + n)]
      else str_nat (n div 10) @ [char_of (48 + n mod 10)])"

declare str_nat.simps [simp del]

fun wrap_all :: "string \<Rightarrow> string list \<Rightarrow> error + string" where
  \<comment> \<open>\<^verbatim>\<open>for func in functions: content = wrap_function(content, func)\<close>\<close>
  "wrap_all content [] = Inr content"
| "wrap_all content (func # functions) =
     (case wrap_function content func of
        Inl e \<Rightarrow> Inl e
      | Inr content' \<Rightarrow> wrap_all content' functions)"

definition summary :: "string list \<Rightarrow> string \<Rightarrow> string" where
  \<comment> \<open>\<^verbatim>\<open>f"Wrapped {len(functions)} functions in {filename}"\<close>\<close>
  "summary functions filename =
     ''Wrapped '' @ str_nat (length functions) @ '' functions in '' @ filename"

definition main :: "string list \<Rightarrow> world \<Rightarrow> world \<times> (error + string)" where
  \<comment> \<open>The script run with \<^verbatim>\<open>sys.argv = argv\<close>: the world it leaves, and the exception
      that ends it or the line it prints.\<close>
  "main argv w =
     (case argv of
        prog # filename # functions \<Rightarrow>
          (case read_file w filename of
             Inl e \<Rightarrow> (w, Inl e)
           | Inr content \<Rightarrow>
               (case wrap_all content functions of
                  Inl e \<Rightarrow> (w, Inl e)
                | Inr content' \<Rightarrow>
                    (case write_file w filename content' of
                       Inl e \<Rightarrow> (w, Inl e)
                     | Inr w' \<Rightarrow> (w', Inr (summary functions filename)))))
      | _ \<Rightarrow> (w, Inl IndexError))"

subsection \<open>Notions used in the statements\<close>

definition step :: "error + string \<Rightarrow> string \<Rightarrow> error + string" where
  \<comment> \<open>one pass of the single-name transform over an earlier result; an exception of an
      earlier pass stays\<close>
  "step acc func = (case acc of Inl e \<Rightarrow> Inl e | Inr content \<Rightarrow> wrap_function content func)"

fun starts_with :: "string \<Rightarrow> string \<Rightarrow> bool" where
  \<comment> \<open>\<open>starts_with s p\<close>: \<^verbatim>\<open>s.startswith(p)\<close>\<close>
  "starts_with s [] = True"
| "starts_with [] (y # ys) = False"
| "starts_with (x # xs) (y # ys) = (x = y \<and> starts_with xs ys)"

fun occurs :: "string \<Rightarrow> string \<Rightarrow> bool" where
  \<comment> \<open>\<open>occurs p s\<close>: \<^verbatim>\<open>p in s\<close>\<close>
  "occurs p [] = (p = [])"
| "occurs p (x # xs) = (starts_with (x # xs) p \<or> occurs p xs)"

fun has_match :: "rx \<Rightarrow> string \<Rightarrow> bool" where
  \<comment> \<open>the pattern matches somewhere in the text\<close>
  "has_match r [] = (ms r [] [] \<noteq> [])"
| "has_match r (x # xs) = (ms r (x # xs) [] \<noteq> [] \<or> has_match r xs)"

definition re_search :: "string \<Rightarrow> string \<Rightarrow> error + bool" where
  \<comment> \<open>\<^verbatim>\<open>re.search(p, s, flags=re.DOTALL) is not None\<close>\<close>
  "re_search p s =
     (case re_compile p of Inl e \<Rightarrow> Inl e | Inr (r, g) \<Rightarrow> Inr (has_match r s))"

definition match_at :: "string \<Rightarrow> string \<Rightarrow> error + (string \<times> caps) option" where
  \<comment> \<open>\<^verbatim>\<open>re.match(p, s, flags=re.DOTALL)\<close>: the text after the match and its groups\<close>
  "match_at p s =
     (case re_compile p of Inl e \<Rightarrow> Inl e | Inr (r, g) \<Rightarrow> Inr (first_match r False s))"

definition plain :: "string \<Rightarrow> bool" where
  \<comment> \<open>no character of the name is special in a pattern\<close>
  "plain name = list_all (\<lambda>ch. ch \<noteq> bs \<and> \<not> List.member ''.[{()*+?^$|'' ch) name"

definition entry_rx :: "string \<Rightarrow> rx" where
  \<comment> \<open>the syntax tree of \<open>pattern name\<close> for a plain name\<close>
  "entry_rx name =
     foldr Cat
       [Grp 1 (foldr Cat
                 (map Lit ''export async function '' @ map Lit name @
                  [Lit CHR ''('', Star (Cls True [CChar CHR '')'']), Lit CHR '')'',
                   Star (Cls True [CChar CHR ''{'']), Lit CHR ''{'', Star (Cls False [CSpace])])
                 Eps),
        Lit CHR ''t'', Lit CHR ''r'', Lit CHR ''y'', Lit CHR '' '', Lit CHR ''{'']
       Eps"

definition step_b :: "string \<Rightarrow> string" where
  \<comment> \<open>the second substitution of \<open>wrap_function\<close>, whose pattern and template hold
      no part of the function name\<close>
  "step_b s = (case re_sub catch_pattern (catch_replacement []) s of Inl e \<Rightarrow> [] | Inr out \<Rightarrow> out)"

definition scenario :: string where
  \<comment> \<open>the file of the specification's end-to-end scenario\<close>
  "scenario = ''export async function save(x) { try { doWork(x); } catch (error) { console.error(e); return { success: false, error: e }; } }''"

definition posix_world :: "string \<Rightarrow> string \<Rightarrow> world" where
  \<comment> \<open>one file that may be read and written, on a platform whose line separator is
      the line feed and under whose codec a byte and the character of the same code
      stand for each other (Latin-1; for ASCII text, UTF-8 as well)\<close>
  "posix_world filename stored =
     \<lparr>files = [filename \<mapsto> stored], readable = (\<lambda>p. True), writable = (\<lambda>p. True),
      linesep = [LF], decode_text = Some, encode_text = (\<lambda>text. text)\<rparr>"

definition ascii_text :: "string \<Rightarrow> string option" where
  \<comment> \<open>a strict decoder: bytes above 127 are no text\<close>
  "ascii_text stored =
     (if list_all (\<lambda>ch. (of_char ch :: nat) < 128) stored then Some stored else None)"

definition catch_rx :: rx where
  \<comment> \<open>the syntax tree of \<open>catch_pattern\<close>\<close>
  "catch_rx = (case re_compile catch_pattern of Inl e \<Rightarrow> Eps | Inr (r, g) \<Rightarrow> r)"

definition entry_t :: "titem list" where
  \<comment> \<open>the template of \<open>replacement\<close>\<close>
  "entry_t = TGroup 1 # map TLit ''return withServerActionErrorHandler(async () => {''"

definition catch_t :: "titem list" where
  \<comment> \<open>the template of \<open>catch_replacement\<close>\<close>
  "catch_t = TGroup 1 # map TLit (''}, {function_name});'' @ [CHR 0x02] @ ''}}'')"

section \<open>Properties\<close>

subsection \<open>The parser on the script's patterns\<close>

lemma pfold_append:
  "pfold p (xs @ ys) = (case pfold p xs of Inl e \<Rightarrow> Inl e | Inr p' \<Rightarrow> pfold p' ys)"
  by (induction xs arbitrary: p) (auto split: sum.splits)

lemma pfold_plain:
  "plain name \<Longrightarrow>
   pfold (PState Normal Atom (Frame k alts items # rest) g) name =
   Inr (PState Normal Atom (Frame k alts (rev (map Lit name) @ items) # rest) g)"
proof (induction name arbitrary: items)
  case Nil
  then show ?case by simp
next
  case (Cons ch name)
  from Cons.prems have ch: "ch \<noteq> bs" "\<not> List.member ''.[{()*+?^$|'' ch" and nm: "plain name"
    by (simp_all add: plain_def)
  from ch have "pstep (PState Normal Atom (Frame k alts items # rest) g) ch =
      Inr (PState Normal Atom (Frame k alts (Lit ch # items) # rest) g)"
    by (simp add: push_item_def)
  then show ?case using Cons.IH [OF nm, of "Lit ch # items"] by simp
qed

lemma pfold_prefix:
  "pfold (PState Normal AtStart [Frame 0 [] []] 0) ''(export async function '' =
   Inr (PState Normal Atom [Frame 1 [] (rev (map Lit ''export async function '')), Frame 0 [] []] 1)"
  by (simp add: bs_def push_item_def)

lemma pfold_suffix:
  "pfold (PState Normal Atom [Frame 1 [] items, Frame 0 [] []] 1)
     ([bs] @ ''([^)]*'' @ [bs] @ '')[^{]*'' @ [bs] @ ''{'' @ [bs] @ ''s*)try '' @ [bs] @ ''{'') =
   Inr (PState Normal Atom
     [Frame 0 [] [Lit CHR ''{'', Lit CHR '' '', Lit CHR ''y'', Lit CHR ''r'', Lit CHR ''t'',
        Grp 1 (seq_of ([Star (Cls False [CSpace]), Lit CHR ''{'', Star (Cls True [CChar CHR ''{'']), Lit CHR '')'',
           Star (Cls True [CChar CHR '')'']), Lit CHR ''(''] @ items))]] 1)"
  by (simp add: bs_def push_item_def repeat_last_def escape_item_def is_alnum_def branches_def)

lemma compile_plain:
  assumes "plain name"
  shows "re_compile (pattern name) = Inr (entry_rx name, 1)"
proof -
  define suf where "suf = [bs] @ ''([^)]*'' @ [bs] @ '')[^{]*'' @ [bs] @ ''{'' @ [bs] @ ''s*)try '' @ [bs] @ ''{''"
  have p: "pattern name = ''(export async function '' @ (name @ suf)"
    by (simp add: pattern_def suf_def)
  have "pfold (PState Normal AtStart [Frame 0 [] []] 0) (pattern name) =
        pfold (PState Normal Atom
                 [Frame 1 [] (rev (map Lit name) @ rev (map Lit ''export async function '')),
                  Frame 0 [] []] 1) suf"
    unfolding p by (simp only: pfold_append pfold_prefix sum.case pfold_plain [OF assms])
  also have "\<dots> = Inr (PState Normal Atom
     [Frame 0 [] [Lit CHR ''{'', Lit CHR '' '', Lit CHR ''y'', Lit CHR ''r'', Lit CHR ''t'',
        Grp 1 (seq_of ([Star (Cls False [CSpace]), Lit CHR ''{'', Star (Cls True [CChar CHR ''{'']), Lit CHR '')'',
           Star (Cls True [CChar CHR '')'']), Lit CHR ''(''] @
           (rev (map Lit name) @ rev (map Lit ''export async function ''))))]] 1)"
    unfolding suf_def by (rule pfold_suffix)
  finally show ?thesis
    by (simp add: re_compile_def branches_def seq_of_def entry_rx_def)
qed

lemma first_match_none: "ms r s [] = [] \<Longrightarrow> first_match r adv s = None"
  by (simp add: first_match_def)

lemma sub_scan_no_match: "\<not> has_match r s \<Longrightarrow> sub_scan r t adv s = s"
proof (induction s arbitrary: adv)
  case Nil
  then show ?case by (subst sub_scan.simps) (simp add: first_match_none)
next
  case (Cons x xs)
  then show ?case by (subst sub_scan.simps) (simp add: first_match_none)
qed


lemma ms_lits:
  "ms (foldr Cat (map Lit p @ rest) Eps) s c \<noteq> [] \<Longrightarrow> starts_with s p"
proof (induction p arbitrary: s)
  case Nil
  then show ?case by simp
next
  case (Cons a p)
  then show ?case by (cases s) (auto split: if_splits)
qed

lemma starts_with_occurs: "starts_with t q \<Longrightarrow> occurs q (p @ t)"
proof (induction p)
  case Nil
  then show ?case by (cases t; cases q) auto
next
  case (Cons a p)
  then show ?case by simp
qed

lemma starts_with_append: "starts_with s (p @ q) \<Longrightarrow> \<exists>t. s = p @ t \<and> starts_with t q"
proof (induction p arbitrary: s)
  case Nil
  then show ?case by simp
next
  case (Cons a p)
  then show ?case by (cases s) auto
qed

lemma ms_entry_occurs:
  assumes "ms (entry_rx name) s c \<noteq> []"
  shows "occurs name s"
proof -
  let ?tail = "[Lit CHR ''('', Star (Cls True [CChar CHR '')'']), Lit CHR '')'',
                Star (Cls True [CChar CHR ''{'']), Lit CHR ''{'', Star (Cls False [CSpace])]"
  have "ms (foldr Cat (map Lit (''export async function '' @ name) @ ?tail) Eps) s c \<noteq> []"
    using assms unfolding entry_rx_def by (auto simp del: map_append simp add: map_append [symmetric])
  then have "starts_with s (''export async function '' @ name)"
    by (rule ms_lits)
  then obtain t where "s = ''export async function '' @ t" and "starts_with t name"
    using starts_with_append by blast
  then show ?thesis
    using starts_with_occurs by blast
qed

lemma has_match_entry_occurs: "has_match (entry_rx name) s \<Longrightarrow> occurs name s"
proof (induction s)
  case Nil
  then show ?case using ms_entry_occurs [of name "[]"] by simp
next
  case (Cons x xs)
  then show ?case using ms_entry_occurs [of name "x # xs"] by auto
qed

lemma pstep_groups:
  "pstep (PState m st fs g) ch = Inr (PState m' st' fs' g') \<Longrightarrow> g \<le> g'"
  by (cases m)
     (auto simp: push_item_def repeat_last_def split: if_splits sum.splits list.splits frame.splits rstat.splits)

lemma pfold_groups:
  "pfold (PState m st fs g) p = Inr (PState m' st' fs' g') \<Longrightarrow> g \<le> g'"
proof (induction p arbitrary: m st fs g)
  case Nil
  then show ?case by simp
next
  case (Cons ch p)
  from Cons.prems obtain q where q: "pstep (PState m st fs g) ch = Inr q"
    and r: "pfold q p = Inr (PState m' st' fs' g')"
    by (auto split: sum.splits)
  obtain m1 st1 fs1 g1 where q1: "q = PState m1 st1 fs1 g1" by (cases q)
  from q q1 have "g \<le> g1" using pstep_groups by blast
  moreover from r q1 have "g1 \<le> g'" using Cons.IH by blast
  ultimately show ?case by simp
qed

lemma compile_pattern_groups:
  assumes "re_compile (pattern name) = Inr (r, g)"
  shows "1 \<le> g"
proof -
  obtain rest where p: "pattern name = CHR ''('' # rest"
    by (simp add: pattern_def)
  have s1: "pstep (PState Normal AtStart [Frame 0 [] []] 0) CHR ''('' =
      Inr (PState Normal AfterOpen [Frame 1 [] [], Frame 0 [] []] 1)"
    by (simp add: bs_def)
  have "pfold (PState Normal AtStart [Frame 0 [] []] 0) (pattern name) =
        pfold (PState Normal AfterOpen [Frame 1 [] [], Frame 0 [] []] 1) rest"
    by (simp only: p pfold.simps s1 sum.case)
  with assms obtain q where q: "pfold (PState Normal AfterOpen [Frame 1 [] [], Frame 0 [] []] 1) rest = Inr q"
    and f: "pfinish q = Inr (r, g)"
    unfolding re_compile_def by (auto split: sum.splits)
  obtain m st fs g' where q1: "q = PState m st fs g'" by (cases q)
  from q q1 have "1 \<le> g'" using pfold_groups by blast
  moreover from f q1 have "g' = g"
    by (cases "(PState m st fs g')" rule: pfinish.cases) auto
  ultimately show ?thesis by simp
qed

subsection \<open>The two substitutions\<close>

lemma compile_catch: "re_compile catch_pattern = Inr (catch_rx, 2)"
  by code_simp

lemma catch_not_nullable: "nullable catch_rx = False"
  by code_simp

lemma template_entry: "1 \<le> g \<Longrightarrow> parse_template g replacement = Inr entry_t"
  by (simp add: replacement_def bs_def digit_val_def entry_t_def)

lemma template_catch: "parse_template 2 (catch_replacement f) = Inr catch_t"
  by (simp add: catch_replacement_def bs_def digit_val_def catch_t_def)

lemma expand_group_lits: "expand (TGroup n # map TLit xs) c = group_text c n @ xs"
  by (induction xs) (simp_all add: expand_def)

lemma re_sub_catch: "re_sub catch_pattern (catch_replacement f) s = Inr (sub_scan catch_rx catch_t False s)"
  by (simp add: re_sub_def compile_catch template_catch)

lemma re_sub_entry:
  "re_compile (pattern f) = Inr (r, g) \<Longrightarrow>
   re_sub (pattern f) replacement s = Inr (sub_scan r entry_t False s)"
  using compile_pattern_groups [of f r g] by (simp add: re_sub_def template_entry)

lemma wrap_function_compiled:
  "re_compile (pattern f) = Inr (r, g) \<Longrightarrow>
   wrap_function c f = Inr (sub_scan catch_rx catch_t False (sub_scan r entry_t False c))"
  by (simp add: wrap_function_def re_sub_entry re_sub_catch)

lemma wrap_function_no_entry:
  assumes "re_search (pattern f) c = Inr False"
  shows "wrap_function c f = Inr (sub_scan catch_rx catch_t False c)"
proof -
  from assms obtain r g where rg: "re_compile (pattern f) = Inr (r, g)" and "\<not> has_match r c"
    by (auto simp: re_search_def split: sum.splits)
  then show ?thesis by (simp add: wrap_function_compiled sub_scan_no_match)
qed

subsection \<open>What a match consumes\<close>

lemma ms_length:
  "(s', c') \<in> set (ms r s c) \<Longrightarrow> length s' \<le> length s \<and> (\<not> nullable r \<longrightarrow> length s' < length s)"
proof (induction r s c arbitrary: s' c' rule: ms.induct)
  case (1 a s c)
  then show ?case by (auto split: list.splits if_splits)
next
  case (2 s c)
  then show ?case by (auto split: list.splits)
next
  case (3 neg items s c)
  then show ?case by (auto split: list.splits if_splits)
next
  case (4 s c)
  then show ?case by simp
next
  case (5 a b s c)
  from "5.prems" obtain s1 c1 where 1: "(s1, c1) \<in> set (ms a s c)" and 2: "(s', c') \<in> set (ms b s1 c1)"
    by auto
  from "5.IH"(1) [OF 1] "5.IH"(2) [OF 1 refl 2] show ?case by auto
next
  case (6 a b s c)
  then show ?case by auto
next
  case (7 a s c)
  from "7.prems" have "(s', c') \<in> set (concat (map (\<lambda>(s', c'). if length s' < length s then ms (Star a) s' c' else [])
                 (ms a s c)) @ [(s, c)])"
    by (simp only: ms.simps(7) [of a s c])
  then consider "(s', c') = (s, c)"
    | s1 c1 where "(s1, c1) \<in> set (ms a s c)" "length s1 < length s" "(s', c') \<in> set (ms (Star a) s1 c1)"
    by (auto split: if_splits)
  then show ?case
  proof cases
    case 1
    then show ?thesis by simp
  next
    case 2
    from "7.IH"(2) [OF 2(1) refl 2(2) 2(3)] 2(2) show ?thesis by simp
  qed
next
  case (8 n a s c)
  then show ?case by auto
qed

lemma catch_match_advances:
  "first_match catch_rx adv s = Some (s', c) \<Longrightarrow> length s' < length s"
proof -
  assume "first_match catch_rx adv s = Some (s', c)"
  then have "(s', c) \<in> set (ms catch_rx s [])"
    by (auto simp: first_match_def find_Some_iff in_set_conv_nth)
  then show ?thesis using ms_length [of s' c catch_rx s "[]"] catch_not_nullable by simp
qed

lemma ms_suffix: "(s', c') \<in> set (ms r s c) \<Longrightarrow> \<exists>u. s = u @ s'"
proof (induction r s c arbitrary: s' c' rule: ms.induct)
  case (1 a s c)
  then show ?case by (auto split: list.splits if_splits)
next
  case (2 s c)
  then show ?case by (auto split: list.splits)
next
  case (3 neg items s c)
  then show ?case by (auto split: list.splits if_splits)
next
  case (4 s c)
  then show ?case by simp
next
  case (5 a b s c)
  from "5.prems" obtain s1 c1 where 1: "(s1, c1) \<in> set (ms a s c)"
    and 2: "(s', c') \<in> set (ms b s1 c1)"
    by auto
  from "5.IH"(1) [OF 1] "5.IH"(2) [OF 1 refl 2] show ?case by auto
next
  case (6 a b s c)
  then show ?case by auto
next
  case (7 a s c)
  from "7.prems" have "(s', c') \<in> set (concat (map (\<lambda>(s', c'). if length s' < length s then ms (Star a) s' c' else [])
                 (ms a s c)) @ [(s, c)])"
    by (simp only: ms.simps(7) [of a s c])
  then consider "(s', c') = (s, c)"
    | s1 c1 where "(s1, c1) \<in> set (ms a s c)" "length s1 < length s"
        "(s', c') \<in> set (ms (Star a) s1 c1)"
    by (auto split: if_splits)
  then show ?case
  proof cases
    case 1
    then show ?thesis by simp
  next
    case 2
    from "7.IH"(1) [OF 2(1)] "7.IH"(2) [OF 2(1) refl 2(2) 2(3)] show ?thesis by auto
  qed
next
  case (8 n a s c)
  then show ?case by auto
qed

lemma has_match_suffix: "has_match r t \<Longrightarrow> has_match r (u @ t)"
proof (induction u)
  case Nil
  then show ?case by simp
next
  case (Cons a u)
  then show ?case by simp
qed

lemma first_match_suffix: "first_match r adv s = Some (rest, caps) \<Longrightarrow> \<exists>u. s = u @ rest"
proof -
  assume "first_match r adv s = Some (rest, caps)"
  then have "(rest, caps) \<in> set (ms r s [])"
    by (auto simp: first_match_def find_Some_iff in_set_conv_nth)
  then show ?thesis by (rule ms_suffix)
qed

lemma expand_catch_t:
  "expand catch_t caps = group_text caps 1 @ ''}, {function_name});'' @ [CHR 0x02] @ ''}}''"
  unfolding catch_t_def by (rule expand_group_lits)

lemma step_b_scan: "step_b s = sub_scan catch_rx catch_t False s"
  by (simp add: step_b_def re_sub_catch)

subsection \<open>The driver\<close>

lemma step_Inl: "step (Inl e) func = Inl e"
  by (simp add: step_def)

lemma step_Inr: "step (Inr content) func = wrap_function content func"
  by (simp add: step_def)

lemma foldl_step_Inl: "foldl step (Inl e) functions = Inl e"
  by (induction "functions") (simp_all add: step_Inl)

lemma wrap_all_foldl: "wrap_all content functions = foldl step (Inr content) functions"
proof (induction "functions" arbitrary: content)
  case Nil
  then show ?case by simp
next
  case (Cons func rest)
  then show ?case
    by (cases "wrap_function content func") (simp_all add: step_Inr foldl_step_Inl)
qed

lemma universal_newlines_id: "CR \<notin> set s \<Longrightarrow> universal_newlines s = s"
  by (induction s rule: universal_newlines.induct) auto

lemma write_newlines_LF: "write_newlines [LF] s = s"
  by (induction s) (simp_all add: write_newlines_def)

lemma str_nat_0: "str_nat 0 = ''0''"
  by code_simp

section \<open>The claims\<close>

text \<open>
  C1. For the file of the end-to-end scenario and the name \<open>save\<close>, \<open>try {\<close> is replaced
  by the opener of the wrapper call and \<open>doWork(x);\<close> is kept, but the catch block is
  not replaced by a closer with the argument \<open>"save"\<close>: the script writes the text
  \<open>{function_name}\<close> unquoted, the character with code 2 and two closing braces.
  The same holds for the file the whole script leaves.
\<close>

theorem scenario_save_output:
  "wrap_function scenario ''save'' =
     Inr (''export async function save(x) { return withServerActionErrorHandler(async () => { doWork(x); }, {function_name});''
          @ [CHR 0x02] @ ''}} }'')
   \<and> files (fst (main [''wrap_functions.py'', ''app.ts'', ''save''] (posix_world ''app.ts'' scenario)))
         ''app.ts'' =
     Some (''export async function save(x) { return withServerActionErrorHandler(async () => { doWork(x); }, {function_name});''
          @ [CHR 0x02] @ ''}} }'')"
  by code_simp

text \<open>
  C2. For a file with one guarded function \<open>load\<close> and its failure block, the text that
  replaces the failure block does not end in an argument equal to the name \<open>load\<close>:
  the name does not occur in what replaces the block.
\<close>

theorem catch_closer_argument_load:
  "wrap_function
     ''export async function load(id) { try { return await q(id); } catch (error) { console.error(error); return { success: false, error: msg }; } }''
     ''load'' =
   Inr (''export async function load(id) { return withServerActionErrorHandler(async () => { return await q(id); }, {function_name});''
        @ [CHR 0x02] @ ''}} }'')"
  by code_simp

text \<open>
  C3, as amended. For every content in which no block has the failure-handling shape
  (the catch pattern matches nowhere) and every function name that holds no character
  special in a pattern and does not occur in the content, \<open>wrap_function\<close> returns the
  content unchanged, and raises nothing.
\<close>

theorem identity_when_nothing_matches:
  assumes "plain f" and "\<not> occurs f c" and "re_search catch_pattern c = Inr False"
  shows "wrap_function c f = Inr c"
proof -
  from assms(2) have "\<not> has_match (entry_rx f) c"
    using has_match_entry_occurs by blast
  moreover from assms(3) have "\<not> has_match catch_rx c"
    by (simp add: re_search_def compile_catch)
  ultimately show ?thesis
    by (simp add: wrap_function_compiled [OF compile_plain [OF assms(1)]] sub_scan_no_match)
qed

theorem identity_when_nothing_matches_witness:
  "plain ''save'' \<and> \<not> occurs ''save'' ''const x = 1;'' \<and>
   re_search catch_pattern ''const x = 1;'' = Inr False \<and>
   wrap_function ''const x = 1;'' ''save'' = Inr ''const x = 1;''"
proof -
  have 1: "plain ''save''" by code_simp
  have 2: "\<not> occurs ''save'' ''const x = 1;''" by code_simp
  have 3: "re_search catch_pattern ''const x = 1;'' = Inr False" by code_simp
  from identity_when_nothing_matches [OF 1 2 3] 1 2 3 show ?thesis by blast
qed

text \<open>
  The claim as it was stated fails twice. The name \<open>load\<close> does not occur in the
  scenario's file, whose failure block is replaced all the same; and the name \<open>.\<close>
  does not occur in a file whose function \<open>a\<close> its pattern matches.
\<close>

theorem identity_on_absent_name_counterexample:
  "\<not> occurs ''load'' scenario \<and>
   wrap_function scenario ''load'' =
     Inr (''export async function save(x) { try { doWork(x); }, {function_name});'' @ [CHR 0x02] @ ''}} }'') \<and>
   \<not> occurs ''.'' ''export async function a() { try {'' \<and>
   wrap_function ''export async function a() { try {'' ''.'' =
     Inr ''export async function a() { return withServerActionErrorHandler(async () => {''"
  by code_simp

text \<open>
  C4, as amended. The second substitution is not scoped to the function of the first:
  it is applied to whatever text the first one leaves, and it replaces every block of
  the failure-handling shape, in the order of the file. Where the catch pattern matches
  at the start of a text, the match is replaced and the text behind the match is treated
  the same way; where it does not, the first character is kept and the text behind it is
  treated the same way.
\<close>

theorem step_b_replaces_every_block:
  assumes "re_sub (pattern f) replacement c = Inr c'"
  shows "wrap_function c f = Inr (step_b c') \<and>
         (case match_at catch_pattern s of
            Inl e \<Rightarrow> False
          | Inr None \<Rightarrow>
              (case s of [] \<Rightarrow> step_b s = [] | x # xs \<Rightarrow> step_b s = x # step_b xs)
          | Inr (Some (rest, caps)) \<Rightarrow>
              step_b s =
                group_text caps 1 @ ''}, {function_name});'' @ [CHR 0x02] @ ''}}'' @ step_b rest)"
proof
  show "wrap_function c f = Inr (step_b c')"
    using assms by (simp add: wrap_function_def re_sub_catch step_b_scan)
next
  have m: "match_at catch_pattern s = Inr (first_match catch_rx False s)"
    by (simp add: match_at_def compile_catch)
  show "case match_at catch_pattern s of
          Inl e \<Rightarrow> False
        | Inr None \<Rightarrow>
            (case s of [] \<Rightarrow> step_b s = [] | x # xs \<Rightarrow> step_b s = x # step_b xs)
        | Inr (Some (rest, caps)) \<Rightarrow>
            step_b s =
              group_text caps 1 @ ''}, {function_name});'' @ [CHR 0x02] @ ''}}'' @ step_b rest"
  proof (cases "first_match catch_rx False s")
    case None
    then have mm: "match_at catch_pattern s = Inr None"
      by (simp add: m)
    have "step_b s = (case s of [] \<Rightarrow> [] | x # xs \<Rightarrow> x # step_b xs)"
      using sub_scan.simps [of catch_rx catch_t False s] None
      by (simp add: step_b_scan split: list.splits)
    then show ?thesis
      by (simp add: mm split: list.splits)
  next
    case (Some a)
    obtain rest caps where a: "a = (rest, caps)" by (cases a)
    from Some a have mm: "match_at catch_pattern s = Inr (Some (rest, caps))"
      by (simp add: m)
    from Some a have "length rest < length s"
      using catch_match_advances by blast
    then have "step_b s = expand catch_t caps @ step_b rest"
      using sub_scan.simps [of catch_rx catch_t False s] Some a by (simp add: step_b_scan)
    then show ?thesis
      by (simp add: mm expand_catch_t)
  qed
qed

theorem step_b_replaces_every_block_witness:
  "re_sub (pattern ''b'') replacement
     ''export async function b() { try { g(); } catch (error) { console.error(e); return { success: false, error: e }; } }'' =
     Inr ''export async function b() { return withServerActionErrorHandler(async () => { g(); } catch (error) { console.error(e); return { success: false, error: e }; } }'' \<and>
   wrap_function
     ''export async function b() { try { g(); } catch (error) { console.error(e); return { success: false, error: e }; } }''
     ''b'' =
     Inr (step_b ''export async function b() { return withServerActionErrorHandler(async () => { g(); } catch (error) { console.error(e); return { success: false, error: e }; } }'') \<and>
   match_at catch_pattern '' } catch (error) { console.error(e); return { success: false, error: e }; } } more'' =
     Inr (Some ('' } more'', [(2, '' ''), (1, '' '')])) \<and>
   step_b '' } catch (error) { console.error(e); return { success: false, error: e }; } } more'' =
     group_text [(2, '' ''), (1, '' '')] 1 @ ''}, {function_name});'' @ [CHR 0x02] @ ''}}'' @ step_b '' } more''"
proof -
  have 1: "re_sub (pattern ''b'') replacement
     ''export async function b() { try { g(); } catch (error) { console.error(e); return { success: false, error: e }; } }'' =
     Inr ''export async function b() { return withServerActionErrorHandler(async () => { g(); } catch (error) { console.error(e); return { success: false, error: e }; } }''"
    by code_simp
  have 2: "match_at catch_pattern '' } catch (error) { console.error(e); return { success: false, error: e }; } } more'' =
     Inr (Some ('' } more'', [(2, '' ''), (1, '' '')]))"
    by code_simp
  from step_b_replaces_every_block [OF 1,
      of "'' } catch (error) { console.error(e); return { success: false, error: e }; } } more''"]
    1 2
  show ?thesis by simp
qed

text \<open>
  The claim as it was stated, that only the first such block is replaced and not the
  one of the named function, fails on a file with two functions: for the name of the
  second one, the block of the first and the block of the second are both replaced.
\<close>

theorem step_b_first_block_counterexample:
  "wrap_function
     ''export async function a() { try { f(); } catch (error) { console.error(e); return { success: false, error: e }; } } export async function b() { try { g(); } catch (error) { console.error(e); return { success: false, error: e }; } }''
     ''b'' =
   Inr (''export async function a() { try { f(); }, {function_name});'' @ [CHR 0x02] @
        ''}} } export async function b() { return withServerActionErrorHandler(async () => { g(); }, {function_name});''
        @ [CHR 0x02] @ ''}} }'')"
  by code_simp

text \<open>
  C5. For every content read from the file and every list of function names, the
  script's run is the left fold of the single-name transform over that content, once
  per name in the order of the command line: an exception of a pass ends the run and
  leaves the file as it was, and otherwise the result of the fold is what is written.
\<close>

theorem driver_is_left_fold:
  assumes "read_file w filename = Inr content"
  shows "main (prog # filename # functions) w =
     (case foldl step (Inr content) functions of
        Inl e \<Rightarrow> (w, Inl e)
      | Inr final \<Rightarrow>
          (case write_file w filename final of
             Inl e \<Rightarrow> (w, Inl e)
           | Inr w' \<Rightarrow> (w', Inr (summary functions filename))))"
  using assms by (simp add: main_def wrap_all_foldl)

theorem driver_is_left_fold_witness:
  "read_file (posix_world ''app.ts'' scenario) ''app.ts'' = Inr scenario \<and>
   main [''wrap_functions.py'', ''app.ts'', ''load'', ''save''] (posix_world ''app.ts'' scenario) =
     (case foldl step (Inr scenario) [''load'', ''save''] of
        Inl e \<Rightarrow> (posix_world ''app.ts'' scenario, Inl e)
      | Inr final \<Rightarrow>
          (case write_file (posix_world ''app.ts'' scenario) ''app.ts'' final of
             Inl e \<Rightarrow> (posix_world ''app.ts'' scenario, Inl e)
           | Inr w' \<Rightarrow> (w', Inr (summary [''load'', ''save''] ''app.ts''))))"
proof -
  have h: "read_file (posix_world ''app.ts'' scenario) ''app.ts'' = Inr scenario"
    by code_simp
  from driver_is_left_fold [OF h] h show ?thesis by blast
qed

text \<open>
  C6, as amended. When the script is run with no function name and a file that it may
  read and write and whose bytes decode in the encoding of the platform, it prints a
  count of 0, and the file then holds the encoding of its former text with the line
  ends translated: every \<^verbatim>\<open>\r\n\<close> and every other \<^verbatim>\<open>\r\<close> read as \<^verbatim>\<open>\n\<close>, every
  \<^verbatim>\<open>\n\<close> written as the platform's line separator. The file is unchanged byte for
  byte where its text holds no \<^verbatim>\<open>\r\<close>, the line separator is \<^verbatim>\<open>\n\<close> and the codec
  encodes the text to the bytes it was decoded from.
\<close>

theorem zero_names_run:
  assumes "files w filename = Some stored" and "readable w filename" and "writable w filename"
    and "decode_text w stored = Some text"
  shows "main [prog, filename] w =
           (w\<lparr>files := (files w)(filename \<mapsto>
                 encode_text w (write_newlines (linesep w) (universal_newlines text)))\<rparr>,
            Inr (''Wrapped 0 functions in '' @ filename))
       \<and> (CR \<notin> set text \<and> linesep w = [LF] \<and> encode_text w text = stored \<longrightarrow>
            files (fst (main [prog, filename] w)) filename = Some stored)"
  using assms
  by (simp add: main_def read_file_def write_file_def summary_def str_nat_0 universal_newlines_id
      write_newlines_LF)

theorem zero_names_run_witness:
  "files (posix_world ''app.ts'' scenario) ''app.ts'' = Some scenario \<and>
   readable (posix_world ''app.ts'' scenario) ''app.ts'' \<and>
   writable (posix_world ''app.ts'' scenario) ''app.ts'' \<and>
   decode_text (posix_world ''app.ts'' scenario) scenario = Some scenario \<and>
   CR \<notin> set scenario \<and> linesep (posix_world ''app.ts'' scenario) = [LF] \<and>
   encode_text (posix_world ''app.ts'' scenario) scenario = scenario \<and>
   snd (main [''wrap_functions.py'', ''app.ts''] (posix_world ''app.ts'' scenario)) =
     Inr ''Wrapped 0 functions in app.ts'' \<and>
   files (fst (main [''wrap_functions.py'', ''app.ts''] (posix_world ''app.ts'' scenario))) ''app.ts'' =
     Some scenario"
proof -
  have 1: "files (posix_world ''app.ts'' scenario) ''app.ts'' = Some scenario"
    by (simp add: posix_world_def)
  have 2: "readable (posix_world ''app.ts'' scenario) ''app.ts''"
    by (simp add: posix_world_def)
  have 3: "writable (posix_world ''app.ts'' scenario) ''app.ts''"
    by (simp add: posix_world_def)
  have 4: "decode_text (posix_world ''app.ts'' scenario) scenario = Some scenario"
    by (simp add: posix_world_def)
  have 5: "CR \<notin> set scenario"
    by code_simp
  have 6: "linesep (posix_world ''app.ts'' scenario) = [LF]"
    by (simp add: posix_world_def)
  have 7: "encode_text (posix_world ''app.ts'' scenario) scenario = scenario"
    by (simp add: posix_world_def)
  note run = zero_names_run [OF 1 2 3 4, of "''wrap_functions.py''"]
  from run have 8: "snd (main [''wrap_functions.py'', ''app.ts''] (posix_world ''app.ts'' scenario)) =
      Inr ''Wrapped 0 functions in app.ts''"
    by (metis append.simps snd_conv)
  from run 5 6 7 have 9: "files (fst (main [''wrap_functions.py'', ''app.ts'']
      (posix_world ''app.ts'' scenario))) ''app.ts'' = Some scenario"
    by blast
  from 1 2 3 4 5 6 7 8 9 show ?thesis by blast
qed

text \<open>
  The claim as it was stated fails for a file with a carriage return: its two lines
  end in \<^verbatim>\<open>\r\n\<close> before the run and in \<^verbatim>\<open>\n\<close> after it. It fails as well for a
  file whose bytes are no text in the encoding: the read raises, nothing is printed,
  and the file stays as it was.
\<close>

theorem zero_names_crlf_counterexample:
  "files (posix_world ''app.ts'' [CHR ''a'', CR, LF, CHR ''b'']) ''app.ts'' =
     Some [CHR ''a'', CR, LF, CHR ''b''] \<and>
   files (fst (main [''wrap_functions.py'', ''app.ts'']
                 (posix_world ''app.ts'' [CHR ''a'', CR, LF, CHR ''b''])))
     ''app.ts'' = Some [CHR ''a'', LF, CHR ''b''] \<and>
   snd (main [''wrap_functions.py'', ''app.ts'']
          (posix_world ''app.ts'' [CHR ''a'', CR, LF, CHR ''b''])) =
     Inr ''Wrapped 0 functions in app.ts'' \<and>
   snd (main [''wrap_functions.py'', ''app.ts'']
          ((posix_world ''app.ts'' (''caf'' @ [CHR 0xE9, LF]))\<lparr>decode_text := ascii_text\<rparr>)) =
     Inl UnicodeDecodeError \<and>
   files (fst (main [''wrap_functions.py'', ''app.ts'']
                 ((posix_world ''app.ts'' (''caf'' @ [CHR 0xE9, LF]))\<lparr>decode_text := ascii_text\<rparr>)))
     ''app.ts'' = Some (''caf'' @ [CHR 0xE9, LF])"
  by code_simp

text \<open>
  C7. A run that completes prints \<open>Wrapped <count> functions in <filename>\<close>, where the
  count is the number of function names given, whatever the patterns matched.
\<close>

theorem summary_counts_arguments:
  assumes "main (prog # filename # functions) w = (w', Inr out)"
  shows "out = ''Wrapped '' @ str_nat (length functions) @ '' functions in '' @ filename"
  using assms
  by (auto simp: main_def summary_def split: sum.splits)

theorem summary_counts_arguments_witness:
  "re_search (pattern ''nomatch'') ''const x = 1;'' = Inr False \<and>
   snd (main [''wrap_functions.py'', ''app.ts'', ''nomatch''] (posix_world ''app.ts'' ''const x = 1;'')) =
     Inr ''Wrapped 1 functions in app.ts'' \<and>
   ''Wrapped 1 functions in app.ts'' =
     ''Wrapped '' @ str_nat (length [''nomatch'']) @ '' functions in '' @ ''app.ts''"
proof -
  have 1: "re_search (pattern ''nomatch'') ''const x = 1;'' = Inr False"
    by code_simp
  have 2: "snd (main [''wrap_functions.py'', ''app.ts'', ''nomatch'']
                  (posix_world ''app.ts'' ''const x = 1;'')) =
           Inr ''Wrapped 1 functions in app.ts''"
    by code_simp
  then have "main [''wrap_functions.py'', ''app.ts'', ''nomatch''] (posix_world ''app.ts'' ''const x = 1;'') =
      (fst (main [''wrap_functions.py'', ''app.ts'', ''nomatch''] (posix_world ''app.ts'' ''const x = 1;'')),
       Inr ''Wrapped 1 functions in app.ts'')"
    by (metis prod.collapse)
  from summary_counts_arguments [OF this] 1 2 show ?thesis by blast
qed

text \<open>
  C8. If reading the file fails, the exception ends the run uncaught, and the file is
  never opened for writing: the world is left as it was.
\<close>

theorem read_failure_leaves_file:
  assumes "read_file w filename = Inl e"
  shows "main (prog # filename # functions) w = (w, Inl e)"
  using assms by (simp add: main_def)

theorem read_failure_leaves_file_witness:
  "read_file (posix_world ''app.ts'' scenario) ''missing.ts'' = Inl FileNotFoundError \<and>
   main [''wrap_functions.py'', ''missing.ts'', ''save''] (posix_world ''app.ts'' scenario) =
     (posix_world ''app.ts'' scenario, Inl FileNotFoundError)"
proof -
  have h: "read_file (posix_world ''app.ts'' scenario) ''missing.ts'' = Inl FileNotFoundError"
    by code_simp
  from read_failure_leaves_file [OF h] h show ?thesis by blast
qed

text \<open>
  C9. The text put in the place of a failure block is one constant, whatever the
  function name: it holds the characters \<open>{function_name}\<close> and, where the second group
  was meant, the character with code 2. For a name whose entry pattern compiles and
  matches nowhere in a content, \<open>wrap_function\<close> returns what the catch substitution
  makes of the content with the template of any other name; where the catch pattern
  matches at the start of the content, that is the first group, the constant, and the
  result for the text behind the match. So two such names give the same result.
\<close>

theorem catch_replacement_constant:
  assumes "re_search (pattern f) c = Inr False" and "re_search (pattern g) c = Inr False"
  shows "wrap_function c f = wrap_function c g \<and>
         catch_replacement f = catch_replacement g \<and>
         catch_replacement f = [bs] @ ''1}, {function_name});'' @ [CHR 0x02] @ ''}}'' \<and>
         wrap_function c f = re_sub catch_pattern (catch_replacement g) c \<and>
         (case match_at catch_pattern c of
            Inl e \<Rightarrow> False
          | Inr None \<Rightarrow> True
          | Inr (Some (rest, caps)) \<Rightarrow>
              (\<exists>out. wrap_function rest f = Inr out \<and>
                 wrap_function c f =
                   Inr (group_text caps 1 @ ''}, {function_name});'' @ [CHR 0x02] @ ''}}'' @ out)))"
proof (intro conjI)
  show "wrap_function c f = wrap_function c g"
    using assms by (simp add: wrap_function_no_entry)
  show "catch_replacement f = catch_replacement g"
    by (simp add: catch_replacement_def)
  show "catch_replacement f = [bs] @ ''1}, {function_name});'' @ [CHR 0x02] @ ''}}''"
    by (simp add: catch_replacement_def)
  show "wrap_function c f = re_sub catch_pattern (catch_replacement g) c"
    using assms(1) by (simp add: wrap_function_no_entry re_sub_catch)
  have m: "match_at catch_pattern c = Inr (first_match catch_rx False c)"
    by (simp add: match_at_def compile_catch)
  show "case match_at catch_pattern c of
          Inl e \<Rightarrow> False
        | Inr None \<Rightarrow> True
        | Inr (Some (rest, caps)) \<Rightarrow>
            (\<exists>out. wrap_function rest f = Inr out \<and>
               wrap_function c f =
                 Inr (group_text caps 1 @ ''}, {function_name});'' @ [CHR 0x02] @ ''}}'' @ out))"
  proof (cases "first_match catch_rx False c")
    case None
    then show ?thesis by (simp add: m)
  next
    case (Some a)
    obtain rest caps where a: "a = (rest, caps)" by (cases a)
    from Some a have fm: "first_match catch_rx False c = Some (rest, caps)"
      by simp
    then have len: "length rest < length c"
      by (rule catch_match_advances)
    from fm obtain u where u: "c = u @ rest"
      using first_match_suffix by blast
    from assms(1) obtain r k where rk: "re_compile (pattern f) = Inr (r, k)"
      and nm: "\<not> has_match r c"
      by (auto simp: re_search_def split: sum.splits)
    from nm u have "\<not> has_match r rest"
      using has_match_suffix by blast
    with rk have "re_search (pattern f) rest = Inr False"
      by (simp add: re_search_def)
    then have rest: "wrap_function rest f = Inr (sub_scan catch_rx catch_t False rest)"
      by (rule wrap_function_no_entry)
    have "sub_scan catch_rx catch_t False c =
        expand catch_t caps @ sub_scan catch_rx catch_t False rest"
      using sub_scan.simps [of catch_rx catch_t False c] fm len by simp
    then have "wrap_function c f =
        Inr (group_text caps 1 @ ''}, {function_name});'' @ [CHR 0x02] @ ''}}'' @
             sub_scan catch_rx catch_t False rest)"
      using wrap_function_no_entry [OF assms(1)] by (simp add: expand_catch_t)
    with rest show ?thesis
      by (simp add: m fm)
  qed
qed

theorem catch_replacement_constant_witness:
  "re_search (pattern ''load'')
     '' } catch (error) { console.error(e); return { success: false, error: e }; } } more'' = Inr False \<and>
   re_search (pattern ''store'')
     '' } catch (error) { console.error(e); return { success: false, error: e }; } } more'' = Inr False \<and>
   match_at catch_pattern
     '' } catch (error) { console.error(e); return { success: false, error: e }; } } more'' =
     Inr (Some ('' } more'', [(2, '' ''), (1, '' '')])) \<and>
   wrap_function '' } more'' ''load'' = Inr '' } more'' \<and>
   wrap_function
     '' } catch (error) { console.error(e); return { success: false, error: e }; } } more'' ''load'' =
     Inr ('' }, {function_name});'' @ [CHR 0x02] @ ''}} } more'') \<and>
   wrap_function
     '' } catch (error) { console.error(e); return { success: false, error: e }; } } more'' ''load'' =
   wrap_function
     '' } catch (error) { console.error(e); return { success: false, error: e }; } } more'' ''store'' \<and>
   wrap_function
     '' } catch (error) { console.error(e); return { success: false, error: e }; } } more'' ''load'' =
   re_sub catch_pattern (catch_replacement ''store'')
     '' } catch (error) { console.error(e); return { success: false, error: e }; } } more'' \<and>
   catch_replacement ''load'' = catch_replacement ''store'' \<and>
   catch_replacement ''load'' = [bs] @ ''1}, {function_name});'' @ [CHR 0x02] @ ''}}''"
proof -
  have 1: "re_search (pattern ''load'')
     '' } catch (error) { console.error(e); return { success: false, error: e }; } } more'' = Inr False"
    by code_simp
  have 2: "re_search (pattern ''store'')
     '' } catch (error) { console.error(e); return { success: false, error: e }; } } more'' = Inr False"
    by code_simp
  have 3: "match_at catch_pattern
     '' } catch (error) { console.error(e); return { success: false, error: e }; } } more'' =
     Inr (Some ('' } more'', [(2, '' ''), (1, '' '')]))"
    by code_simp
  have 4: "wrap_function '' } more'' ''load'' = Inr '' } more''"
    by code_simp
  have 5: "group_text [(2, '' ''), (1, '' '')] 1 = '' ''"
    by code_simp
  note c = catch_replacement_constant [OF 1 2]
  from c have "case match_at catch_pattern
        '' } catch (error) { console.error(e); return { success: false, error: e }; } } more'' of
      Inl e \<Rightarrow> False
    | Inr None \<Rightarrow> True
    | Inr (Some (rest, caps)) \<Rightarrow>
        (\<exists>out. wrap_function rest ''load'' = Inr out \<and>
           wrap_function
             '' } catch (error) { console.error(e); return { success: false, error: e }; } } more''
             ''load'' =
             Inr (group_text caps 1 @ ''}, {function_name});'' @ [CHR 0x02] @ ''}}'' @ out))"
    by blast
  then obtain out where o1: "wrap_function '' } more'' ''load'' = Inr out"
    and o2: "wrap_function
        '' } catch (error) { console.error(e); return { success: false, error: e }; } } more''
        ''load'' =
        Inr (group_text [(2, '' ''), (1, '' '')] 1 @ ''}, {function_name});'' @ [CHR 0x02] @ ''}}'' @ out)"
    by (simp only: 3 sum.case option.case prod.case) blast
  from o1 4 have "out = '' } more''"
    by simp
  with o2 5 have 6: "wrap_function
     '' } catch (error) { console.error(e); return { success: false, error: e }; } } more'' ''load'' =
     Inr ('' }, {function_name});'' @ [CHR 0x02] @ ''}} } more'')"
    by simp
  from c 1 2 3 4 6 show ?thesis by blast
qed

text \<open>
  C10. The function name enters the entry pattern unescaped. For the name \<open>(\<close> the
  pattern does not compile, and \<open>wrap_function\<close> raises the pattern error on every
  content; for a name with no character special in a pattern it returns a text on
  every content.
\<close>

theorem unescaped_name_pattern_error:
  "wrap_function c ''('' = Inl PatternError \<and>
   (plain f \<longrightarrow> (\<exists>out. wrap_function c f = Inr out))"
proof
  show "wrap_function c ''('' = Inl PatternError"
    by (simp add: wrap_function_def re_sub_def re_compile_def pattern_def bs_def push_item_def
        repeat_last_def escape_item_def is_alnum_def branches_def seq_of_def)
  show "plain f \<longrightarrow> (\<exists>out. wrap_function c f = Inr out)"
    by (simp add: wrap_function_compiled [OF compile_plain])
qed

theorem unescaped_name_pattern_error_witness:
  "plain ''save'' \<and> wrap_function scenario ''('' = Inl PatternError \<and>
   (\<exists>out. wrap_function scenario ''save'' = Inr out)"
proof -
  have 1: "plain ''save''" by code_simp
  from unescaped_name_pattern_error [of scenario "''save''"] 1 show ?thesis by blast
qed

text \<open>
  Re-applying the rewrite for \<open>save\<close> to the text it produced from the scenario's file
  changes nothing: neither pattern matches the rewritten text.
\<close>

theorem scenario_rewrite_twice:
  "wrap_function
     (''export async function save(x) { return withServerActionErrorHandler(async () => { doWork(x); }, {function_name});''
      @ [CHR 0x02] @ ''}} }'')
     ''save'' =
   Inr (''export async function save(x) { return withServerActionErrorHandler(async () => { doWork(x); }, {function_name});''
        @ [CHR 0x02] @ ''}} }'')"
  by code_simp

end
